theory Spec2Isabelle
  imports Main "HOL-Library.Sublist"
begin

section \<open>Python text\<close>

text \<open>
  A Python \<open>str\<close> is a sequence of Unicode code points, so a text is a list of code point
  numbers. \<open>py\<close> turns an ASCII literal into such a list.
\<close>

type_synonym pystr = "nat list"

definition py :: "string \<Rightarrow> pystr" where
  "py s = map of_char s"

text \<open>\<open>str.isspace\<close> of one code point: the white space table of CPython.\<close>

definition isspace :: "nat \<Rightarrow> bool" where
  "isspace c \<longleftrightarrow>
     (9 \<le> c \<and> c \<le> 13) \<or> (28 \<le> c \<and> c \<le> 32) \<or> c = 133 \<or> c = 160 \<or> c = 5760 \<or>
     (8192 \<le> c \<and> c \<le> 8202) \<or> c = 8232 \<or> c = 8233 \<or> c = 8239 \<or> c = 8287 \<or> c = 12288"

text \<open>\<open>s.strip()\<close>: white space is dropped from both ends.\<close>

definition strip :: "pystr \<Rightarrow> pystr" where
  "strip s = rev (dropWhile isspace (rev (dropWhile isspace s)))"

text \<open>
  \<open>s.replace(old, new)\<close>: every occurrence of \<open>old\<close>, found from the left and without
  overlap, becomes \<open>new\<close>. An empty \<open>old\<close> matches before every code point and at the end.
\<close>

fun replace :: "pystr \<Rightarrow> pystr \<Rightarrow> pystr \<Rightarrow> pystr" where
  "replace old new [] = (if old = [] then new else [])"
| "replace old new (c # cs) =
     (if old = [] then new @ c # replace old new cs
      else if prefix old (c # cs) then new @ replace old new (drop (length old) (c # cs))
      else c # replace old new cs)"

text \<open>\<open>sub in s\<close> on texts.\<close>

fun contains :: "pystr \<Rightarrow> pystr \<Rightarrow> bool" where
  "contains sub [] \<longleftrightarrow> sub = []"
| "contains sub (c # cs) \<longleftrightarrow> prefix sub (c # cs) \<or> contains sub cs"

text \<open>\<open>s.startswith(k)\<close>.\<close>

definition startswith :: "pystr \<Rightarrow> pystr \<Rightarrow> bool" where
  "startswith s k \<longleftrightarrow> prefix k s"

text \<open>
  \<open>s.upper()\<close> and \<open>s.lower()\<close> replace each code point by its case mapping. Among the
  ASCII code points only the 26 letters move. The mapping of a code point beyond ASCII (one
  code point or several) comes from the Unicode tables of the running interpreter, which are
  not part of the repository: it is the parameter \<open>uc\<close> or \<open>lc\<close>, and nothing is assumed
  about it. \<open>upper\<close> maps a code point whatever stands around it; \<open>lower\<close> looks at the
  surrounding text for one capital beyond ASCII, so \<open>lc\<close> gets the text before the code
  point, the code point and the text after it.
\<close>

definition is_ascii :: "pystr \<Rightarrow> bool" where
  "is_ascii s \<longleftrightarrow> list_all (\<lambda>c. c < 128) s"

definition ascii_upper :: "nat \<Rightarrow> nat" where
  "ascii_upper c = (if 97 \<le> c \<and> c \<le> 122 then c - 32 else c)"

definition ascii_lower :: "nat \<Rightarrow> nat" where
  "ascii_lower c = (if 65 \<le> c \<and> c \<le> 90 then c + 32 else c)"

definition upper :: "(nat \<Rightarrow> pystr) \<Rightarrow> pystr \<Rightarrow> pystr" where
  "upper uc s = concat (map (\<lambda>c. if c < 128 then [ascii_upper c] else uc c) s)"

fun lower_from :: "(pystr \<Rightarrow> nat \<Rightarrow> pystr \<Rightarrow> pystr) \<Rightarrow> pystr \<Rightarrow> pystr \<Rightarrow> pystr" where
  "lower_from lc before [] = []"
| "lower_from lc before (c # cs) =
     (if c < 128 then [ascii_lower c] else lc before c cs) @ lower_from lc (before @ [c]) cs"

definition lower :: "(pystr \<Rightarrow> nat \<Rightarrow> pystr \<Rightarrow> pystr) \<Rightarrow> pystr \<Rightarrow> pystr" where
  "lower lc s = lower_from lc [] s"


section \<open>Exceptions\<close>

text \<open>
  An exception carries its message. \<open>ValueError\<close> and every other class below
  \<open>Exception\<close> is caught by \<open>except Exception\<close>; \<open>NonException\<close> stands for the classes
  that derive from \<open>BaseException\<close> only (\<open>KeyboardInterrupt\<close>, \<open>SystemExit\<close>,
  \<open>GeneratorExit\<close>), which that clause lets through.
\<close>

datatype exn = ValueError pystr | OtherException pystr | NonException pystr

fun exn_str :: "exn \<Rightarrow> pystr" where
  "exn_str (ValueError m) = m"
| "exn_str (OtherException m) = m"
| "exn_str (NonException m) = m"

fun is_Exception :: "exn \<Rightarrow> bool" where
  "is_Exception (ValueError m) = True"
| "is_Exception (OtherException m) = True"
| "is_Exception (NonException m) = False"

text \<open>
  \<open>try: ... except Exception as e: return f"<label>{str(e)}"\<close> around a computation that
  has already produced its result and state.
\<close>

definition except_Exception :: "pystr \<Rightarrow> (exn + pystr) \<times> 's \<Rightarrow> (exn + pystr) \<times> 's" where
  "except_Exception label rs =
     (case rs of
        (Inr v, s) \<Rightarrow> (Inr v, s)
      | (Inl e, s) \<Rightarrow> if is_Exception e then (Inr (label @ exn_str e), s) else (Inl e, s))"


section \<open>Query validator\<close>

definition valid_keywords :: "pystr list" where
  "valid_keywords =
     [py ''SELECT'', py ''INSERT'', py ''UPDATE'', py ''DELETE'',
      py ''CREATE'', py ''DROP'', py ''ALTER'', py ''WITH'']"

definition fence :: pystr where
  "fence = py ''```''"

definition fence_sql :: pystr where
  "fence_sql = py ''```sql''"

definition validate_sql_query :: "(nat \<Rightarrow> pystr) \<Rightarrow> pystr \<Rightarrow> exn + pystr" where
  "validate_sql_query uc query =
     (let query1 = strip query;
          query2 = strip (replace fence [] (replace fence_sql [] query1))
      in if \<not> list_ex (\<lambda>keyword. startswith (upper uc query2) keyword) valid_keywords
         then Inl (ValueError (py ''Invalid SQL query generated: '' @ query2))
         else Inr query2)"

text \<open>The text that \<open>validate_sql_query\<close> tests and returns: its argument after both clean-up lines.\<close>

definition cleaned :: "pystr \<Rightarrow> pystr" where
  "cleaned query = strip (replace fence [] (replace fence_sql [] (strip query)))"

text \<open>A text on its own lines between an opening and a closing fence line.\<close>

definition fenced :: "pystr \<Rightarrow> pystr \<Rightarrow> pystr" where
  "fenced opening s = opening @ [10] @ s @ [10] @ fence"

text \<open>Both \<open>replace\<close> calls of the clean-up line.\<close>

definition unfence :: "pystr \<Rightarrow> pystr" where
  "unfence s = replace fence [] (replace fence_sql [] s)"

text \<open>
  Follows the spec's words: \<open>s\<close> begins, case-insensitively, with the capital-letter word
  \<open>k\<close>: each of its first code points is the capital of \<open>k\<close> or the small letter 32 above it.
\<close>

definition begins_ci :: "pystr \<Rightarrow> pystr \<Rightarrow> bool" where
  "begins_ci s k \<longleftrightarrow> list_all2 (\<lambda>K c. c = K \<or> c = K + 32) k (take (length k) s)"

text \<open>Sample inputs: case tables that change nothing, and a fenced lower-case query.\<close>

definition identity_table :: "nat \<Rightarrow> pystr" where
  "identity_table c = [c]"

definition identity_lower_table :: "pystr \<Rightarrow> nat \<Rightarrow> pystr \<Rightarrow> pystr" where
  "identity_lower_table before c rest = [c]"

definition fenced_lowercase_select :: pystr where
  "fenced_lowercase_select = [32] @ fenced fence_sql (py ''select 1'') @ [32]"



section \<open>Collaborators and run-time state\<close>

text \<open>
  The database, the language model and the prompt templates are libraries outside the
  repository. A collaborator is a function of the outside world \<open>'w\<close> that returns a text
  or raises, and leaves a changed world. A prompt is its template together with the values
  of the template's variables. Every call made to a collaborator is appended to \<open>calls\<close>.
\<close>

datatype prompt =
    SqlPrompt (p_schema: pystr) (p_question: pystr)
  | AnswerPrompt (p_schema: pystr) (p_question: pystr) (p_query: pystr) (p_response: pystr)

datatype call = DbRun pystr | DbGetTableInfo | LlmInvoke prompt

record 'w SQLDatabase =
  run :: "pystr \<Rightarrow> 'w \<Rightarrow> (exn + pystr) \<times> 'w"
  get_table_info :: "'w \<Rightarrow> (exn + pystr) \<times> 'w"

record 'w state =
  world :: 'w
  calls :: "call list"

record 'w environment =
  str_upper :: "nat \<Rightarrow> pystr"
  str_lower :: "pystr \<Rightarrow> nat \<Rightarrow> pystr \<Rightarrow> pystr"
  GROQ_API_KEY :: "pystr option"
  llm :: "prompt \<Rightarrow> 'w \<Rightarrow> (exn + pystr) \<times> 'w"

definition db_run :: "'w SQLDatabase \<Rightarrow> pystr \<Rightarrow> 'w state \<Rightarrow> (exn + pystr) \<times> 'w state" where
  "db_run db q s =
     (case run db q (world s) of
        (r, w) \<Rightarrow> (r, \<lparr>world = w, calls = calls s @ [DbRun q]\<rparr>))"

definition db_get_table_info :: "'w SQLDatabase \<Rightarrow> 'w state \<Rightarrow> (exn + pystr) \<times> 'w state" where
  "db_get_table_info db s =
     (case get_table_info db (world s) of
        (r, w) \<Rightarrow> (r, \<lparr>world = w, calls = calls s @ [DbGetTableInfo]\<rparr>))"

definition llm_invoke :: "'w environment \<Rightarrow> prompt \<Rightarrow> 'w state \<Rightarrow> (exn + pystr) \<times> 'w state" where
  "llm_invoke env p s =
     (case llm env p (world s) of
        (r, w) \<Rightarrow> (r, \<lparr>world = w, calls = calls s @ [LlmInvoke p]\<rparr>))"


section \<open>Query executor\<close>

definition execute_sql_and_get_response ::
  "'w environment \<Rightarrow> 'w SQLDatabase \<Rightarrow> pystr \<Rightarrow> 'w state \<Rightarrow> (exn + pystr) \<times> 'w state" where
  "execute_sql_and_get_response env db query s =
     except_Exception (py ''Error executing SQL query: '')
       (case validate_sql_query (str_upper env) query of
          Inl e \<Rightarrow> (Inl e, s)
        | Inr query' \<Rightarrow> db_run db query' s)"


section \<open>The two chains and the orchestrator\<close>

text \<open>\<open>not api_key\<close>: the variable is unset or empty.\<close>

definition not_set :: "pystr option \<Rightarrow> bool" where
  "not_set k \<longleftrightarrow> k = None \<or> k = Some []"

text \<open>
  The chain returned by \<open>get_sql_chain\<close>: the schema is fetched, the first template is
  filled and the model is asked once.
\<close>

definition sql_chain_invoke ::
  "'w environment \<Rightarrow> 'w SQLDatabase \<Rightarrow> pystr \<Rightarrow> 'w state \<Rightarrow> (exn + pystr) \<times> 'w state" where
  "sql_chain_invoke env db question s =
     (case db_get_table_info db s of
        (Inl e, s1) \<Rightarrow> (Inl e, s1)
      | (Inr schema, s1) \<Rightarrow> llm_invoke env (SqlPrompt schema question) s1)"

definition get_sql_chain ::
  "'w environment \<Rightarrow> 'w SQLDatabase \<Rightarrow> exn + (pystr \<Rightarrow> 'w state \<Rightarrow> (exn + pystr) \<times> 'w state)" where
  "get_sql_chain env db =
     (if not_set (GROQ_API_KEY env)
      then Inl (ValueError (py ''GROQ_API_KEY not found. Please set it in your .env file or environment variables.''))
      else Inr (sql_chain_invoke env db))"

text \<open>
  \<open>chain.invoke\<close> in \<open>get_response\<close>. The first \<open>assign\<close> runs the SQL chain. The second
  \<open>assign\<close> computes \<open>schema\<close> and \<open>response\<close>; the library starts both, waits for both and
  takes the results in the order of the keys, so both steps run here, in that order, before
  a failure of either is raised. Then the second template is filled and the model is asked.
\<close>

definition chain_invoke ::
  "'w environment \<Rightarrow> 'w SQLDatabase \<Rightarrow> (pystr \<Rightarrow> 'w state \<Rightarrow> (exn + pystr) \<times> 'w state) \<Rightarrow>
   pystr \<Rightarrow> 'w state \<Rightarrow> (exn + pystr) \<times> 'w state" where
  "chain_invoke env db sql_chain question s =
     (case sql_chain question s of
        (Inl e, s1) \<Rightarrow> (Inl e, s1)
      | (Inr query, s1) \<Rightarrow>
          (case db_get_table_info db s1 of
             (r_schema, s2) \<Rightarrow>
               (case execute_sql_and_get_response env db query s2 of
                  (r_response, s3) \<Rightarrow>
                    (case r_schema of
                       Inl e \<Rightarrow> (Inl e, s3)
                     | Inr schema \<Rightarrow>
                         (case r_response of
                            Inl e \<Rightarrow> (Inl e, s3)
                          | Inr response \<Rightarrow>
                              llm_invoke env (AnswerPrompt schema question query response) s3)))))"

datatype message = AIMessage pystr | HumanMessage pystr

definition praising_words :: "pystr list" where
  "praising_words =
     [py ''ok'', py ''thank you'', py ''thanks'', py ''great'',
      py ''awesome'', py ''nice'', py ''well done'', py ''cool'']"

text \<open>The fixed reply; it ends with the code point U+1F60A.\<close>

definition canned_reply :: pystr where
  "canned_reply = py ''You'' @ [39] @ py ''re welcome! I'' @ [39] @ py ''m here to help. '' @ [128522]"

definition no_api_key_reply :: pystr where
  "no_api_key_reply = py ''API key not configured. Please check your .env file.''"

definition get_response ::
  "'w environment \<Rightarrow> pystr \<Rightarrow> 'w SQLDatabase \<Rightarrow> message list \<Rightarrow> 'w state \<Rightarrow>
   (exn + pystr) \<times> 'w state" where
  "get_response env user_query db chat_history s =
     (if list_ex (\<lambda>word. contains word (lower (str_lower env) user_query)) praising_words
      then (Inr canned_reply, s)
      else if not_set (GROQ_API_KEY env) then (Inr no_api_key_reply, s)
      else (case get_sql_chain env db of
              Inl e \<Rightarrow> (Inl e, s)
            | Inr sql_chain \<Rightarrow>
                except_Exception (py ''Error in chain invocation: '')
                  (chain_invoke env db sql_chain user_query s)))"


section \<open>The page: session state, connect button, chat input\<close>

datatype role = AI | Human

datatype shown =
    Markdown role pystr
  | Success pystr
  | Warning pystr
  | Error pystr

record 'w session =
  db :: "'w SQLDatabase option"
  chat_history :: "message list"
  screen :: "shown list"

record credentials =
  user :: pystr
  password :: pystr
  host :: pystr
  port :: pystr
  database :: pystr

definition db_uri :: "credentials \<Rightarrow> pystr" where
  "db_uri c =
     py ''mysql+mysqlconnector://'' @ user c @ py '':'' @ password c @ py ''@'' @ host c @
     py '':'' @ port c @ py ''/'' @ database c"

text \<open>\<open>SQLDatabase.from_uri\<close> is the library's constructor: a parameter.\<close>

definition init_database ::
  "(pystr \<Rightarrow> 'w \<Rightarrow> (exn + 'w SQLDatabase) \<times> 'w) \<Rightarrow> credentials \<Rightarrow> 'w \<Rightarrow> (exn + 'w SQLDatabase) \<times> 'w" where
  "init_database from_uri c w = from_uri (db_uri c) w"

definition msg_unknown_database :: pystr where
  "msg_unknown_database = py ''Database not found. Please check the database name and try again.''"

definition msg_access_denied :: pystr where
  "msg_access_denied = py ''Access denied. Please verify your username and password.''"

definition msg_cannot_connect :: pystr where
  "msg_cannot_connect = py ''Cannot connect to the database server. Please check the host and port.''"

definition msg_connection_failed :: pystr where
  "msg_connection_failed = py ''Connection failed. Please verify your settings and try again.''"

text \<open>The \<open>if\<close>/\<open>elif\<close> chain of the connect handler on \<open>error_message = str(e)\<close>.\<close>

definition connect_error_message :: "pystr \<Rightarrow> pystr" where
  "connect_error_message error_message =
     (if contains (py ''1049'') error_message \<or> contains (py ''Unknown database'') error_message
      then msg_unknown_database
      else if contains (py ''1045'') error_message \<or> contains (py ''Access denied'') error_message
      then msg_access_denied
      else if contains (py ''2003'') error_message \<or> contains (py ''Can'' @ [39] @ py ''t connect'') error_message
      then msg_cannot_connect
      else msg_connection_failed)"

text \<open>The body of \<open>if st.button("Connect")\<close>. The first component is an exception that leaves the handler.\<close>

definition on_connect ::
  "(pystr \<Rightarrow> 'w \<Rightarrow> (exn + 'w SQLDatabase) \<times> 'w) \<Rightarrow> credentials \<Rightarrow> 'w session \<Rightarrow> 'w \<Rightarrow>
   exn option \<times> 'w session \<times> 'w" where
  "on_connect from_uri c sess w =
     (case init_database from_uri c w of
        (Inr d, w') \<Rightarrow>
          (None, sess\<lparr>db := Some d, screen := screen sess @ [Success (py ''Connected to database!'')]\<rparr>, w')
      | (Inl e, w') \<Rightarrow>
          if is_Exception e
          then (None, sess\<lparr>screen := screen sess @ [Error (connect_error_message (exn_str e))]\<rparr>, w')
          else (Some e, sess, w'))"

definition connect_first :: pystr where
  "connect_first = py ''Please connect to a database in the sidebar first!''"

text \<open>
  The chat input logic. \<open>st.chat_input\<close> gives \<open>None\<close> or the submitted text; \<open>if user_query\<close>
  is false for \<open>None\<close> and for an empty text.
\<close>

definition on_chat_input ::
  "'w environment \<Rightarrow> pystr option \<Rightarrow> 'w session \<Rightarrow> 'w state \<Rightarrow> exn option \<times> 'w session \<times> 'w state" where
  "on_chat_input env input sess s =
     (case input of
        None \<Rightarrow> (None, sess, s)
      | Some user_query \<Rightarrow>
          if user_query = [] then (None, sess, s)
          else
            (let sess1 = sess\<lparr>chat_history := chat_history sess @ [HumanMessage user_query],
                               screen := screen sess @ [Markdown Human user_query]\<rparr>
             in case db sess1 of
                  None \<Rightarrow>
                    (None,
                     sess1\<lparr>screen := screen sess1 @ [Warning connect_first],
                            chat_history := chat_history sess1 @ [AIMessage connect_first]\<rparr>,
                     s)
                | Some d \<Rightarrow>
                    (case get_response env user_query d (chat_history sess1) s of
                       (Inr response, s') \<Rightarrow>
                         (None,
                          sess1\<lparr>screen := screen sess1 @ [Markdown AI response],
                                 chat_history := chat_history sess1 @ [AIMessage response]\<rparr>,
                          s')
                     | (Inl e, s') \<Rightarrow>
                         if is_Exception e
                         then (None, sess1\<lparr>screen := screen sess1 @ [Error (py ''Error: '' @ exn_str e)]\<rparr>, s')
                         else (Some e, sess1, s'))))"


section \<open>Sample collaborators and inputs\<close>

text \<open>
  Concrete collaborators over a world with a single state, used to run the model on
  examples: a database that answers, one whose \<open>run\<close> raises an ordinary exception, one
  whose \<open>run\<close> is interrupted, and language models that answer, refuse or fail.
\<close>

definition sample_db :: "unit SQLDatabase" where
  "sample_db =
     \<lparr>run = (\<lambda>q w. (Inr (py ''[(5,)]''), w)),
      get_table_info = (\<lambda>w. (Inr (py ''users(id, name)''), w))\<rparr>"

definition broken_db :: "unit SQLDatabase" where
  "broken_db =
     \<lparr>run = (\<lambda>q w. (Inl (OtherException (py ''connection lost'')), w)),
      get_table_info = (\<lambda>w. (Inr (py ''users(id, name)''), w))\<rparr>"

definition interrupted_db :: "unit SQLDatabase" where
  "interrupted_db =
     \<lparr>run = (\<lambda>q w. (Inl (NonException (py ''KeyboardInterrupt'')), w)),
      get_table_info = (\<lambda>w. (Inr (py ''users(id, name)''), w))\<rparr>"

definition refusal :: pystr where
  "refusal = fenced fence (py ''I cannot answer that'')"

definition refusing_llm :: "prompt \<Rightarrow> unit \<Rightarrow> (exn + pystr) \<times> unit" where
  "refusing_llm p w =
     (case p of
        SqlPrompt sch q \<Rightarrow> (Inr refusal, w)
      | AnswerPrompt sch q g r \<Rightarrow> (Inr (py ''Sorry, I could not run a query.''), w))"

definition failing_llm :: "prompt \<Rightarrow> unit \<Rightarrow> (exn + pystr) \<times> unit" where
  "failing_llm p w = (Inl (OtherException (py ''rate limit'')), w)"

definition interrupted_llm :: "prompt \<Rightarrow> unit \<Rightarrow> (exn + pystr) \<times> unit" where
  "interrupted_llm p w = (Inl (NonException (py ''KeyboardInterrupt'')), w)"

definition sample_env :: "(prompt \<Rightarrow> unit \<Rightarrow> (exn + pystr) \<times> unit) \<Rightarrow> unit environment" where
  "sample_env model =
     \<lparr>str_upper = identity_table, str_lower = identity_lower_table,
      GROQ_API_KEY = Some (py ''gsk''), llm = model\<rparr>"

definition start :: "unit state" where
  "start = \<lparr>world = (), calls = []\<rparr>"

definition users_question :: pystr where
  "users_question = py ''how many users are there?''"

definition books_question :: pystr where
  "books_question = py ''how many books are there''"

definition fresh_session :: "unit session" where
  "fresh_session =
     \<lparr>db = None,
      chat_history = [AIMessage (py ''Hello! I'' @ [39] @ py ''m a SQL assistant. Connect your database and ask away.'')],
      screen = []\<rparr>"

definition marker_cannot_connect :: pystr where
  "marker_cannot_connect = py ''Can'' @ [39] @ py ''t connect''"

definition err_unknown_database :: pystr where
  "err_unknown_database = py ''1049 (42000): Unknown database '' @ [39] @ py ''shop'' @ [39]"

definition err_access_denied :: pystr where
  "err_access_denied =
     py ''1045 (28000): Access denied for user '' @ [39] @ py ''root'' @ [39] @ py ''@'' @ [39] @
     py ''localhost'' @ [39]"

definition err_cannot_connect :: pystr where
  "err_cannot_connect =
     py ''2003 (HY000): Can'' @ [39] @ py ''t connect to MySQL server on '' @ [39] @
     py ''localhost:3306'' @ [39] @ py '' (111)''"

definition err_cannot_connect_port_1049 :: pystr where
  "err_cannot_connect_port_1049 =
     py ''2003 (HY000): Can'' @ [39] @ py ''t connect to MySQL server on '' @ [39] @
     py ''localhost:1049'' @ [39] @ py '' (111)''"

definition sample_credentials :: credentials where
  "sample_credentials =
     \<lparr>user = py ''root'', password = py ''secret'', host = py ''localhost'',
      port = py ''3306'', database = py ''shop''\<rparr>"

definition port_1049_from_uri :: "pystr \<Rightarrow> unit \<Rightarrow> (exn + unit SQLDatabase) \<times> unit" where
  "port_1049_from_uri uri w = (Inl (OtherException err_cannot_connect_port_1049), w)"

definition port_3306_from_uri :: "pystr \<Rightarrow> unit \<Rightarrow> (exn + unit SQLDatabase) \<times> unit" where
  "port_3306_from_uri uri w = (Inl (OtherException err_cannot_connect), w)"



section \<open>Facts about \<open>replace\<close> and \<open>strip\<close>\<close>

lemma prefix_before_foreign:
  assumes "b \<notin> set old"
  shows "prefix old (xs @ b # t) \<longleftrightarrow> prefix old xs"
proof
  assume "prefix old (xs @ b # t)"
  then consider "prefix old xs" | us where "old = xs @ us" "prefix us (b # t)"
    by (auto simp: prefix_append)
  then show "prefix old xs"
  proof cases
    case 1 then show ?thesis .
  next
    case 2
    with assms have "us = []" by (cases us) auto
    with 2 show ?thesis by simp
  qed
next
  assume "prefix old xs" then show "prefix old (xs @ b # t)" by (rule prefix_prefix)
qed

lemma replace_Cons_foreign:
  "c \<notin> set old \<Longrightarrow> old \<noteq> [] \<Longrightarrow> replace old new (c # cs) = c # replace old new cs"
  by (cases old) auto

lemma replace_split_at_foreign:
  assumes "b \<notin> set old" "old \<noteq> []"
  shows "replace old new (s @ b # t) = replace old new s @ b # replace old new t"
  using assms
proof (induction s rule: length_induct)
  case (1 s)
  show ?case
  proof (cases s)
    case Nil
    with 1 show ?thesis by (simp add: replace_Cons_foreign del: replace.simps(2))
  next
    case (Cons c cs)
    show ?thesis
    proof (cases "prefix old (c # cs)")
      case True
      then have len: "length old \<le> length (c # cs)" by (rule prefix_length_le)
      have pre: "prefix old ((c # cs) @ b # t)" using True by (rule prefix_prefix)
      have shorter: "length (drop (length old) (c # cs)) < length s"
        using Cons 1(3) by (cases old) auto
      have "replace old new (drop (length old) (c # cs) @ b # t) =
            replace old new (drop (length old) (c # cs)) @ b # replace old new t"
        using 1(1) shorter 1(2,3) by blast
      moreover have "drop (length old) ((c # cs) @ b # t) = drop (length old) (c # cs) @ b # t"
        using len drop_append [of "length old" "c # cs" "b # t"] by (simp del: drop_append)
      ultimately show ?thesis using True pre 1(3) Cons by simp
    next
      case False
      then have npre: "\<not> prefix old ((c # cs) @ b # t)"
        using prefix_before_foreign [OF 1(2)] by blast
      have "replace old new (cs @ b # t) = replace old new cs @ b # replace old new t"
        using 1(1) Cons 1(2,3) by simp
      then show ?thesis using False npre 1(3) Cons by simp
    qed
  qed
qed

lemma replace_foreign_prefix:
  "set w \<inter> set old = {} \<Longrightarrow> old \<noteq> [] \<Longrightarrow> replace old new (w @ s) = w @ replace old new s"
  by (induction w) (auto simp: replace_Cons_foreign simp del: replace.simps(2))

lemma replace_foreign_suffix:
  assumes "set w \<inter> set old = {}" "old \<noteq> []"
  shows "replace old new (s @ w) = replace old new s @ w"
proof (cases w)
  case Nil then show ?thesis by simp
next
  case (Cons b w')
  have "replace old new w' = w'"
    using replace_foreign_prefix [of w' old new "[]"] assms Cons by simp
  then show ?thesis using replace_split_at_foreign [of b old new s w'] assms Cons by simp
qed

lemma rev_dropWhile_takeWhile:
  "xs = rev (dropWhile P (rev xs)) @ rev (takeWhile P (rev xs))"
  by (metis rev_append rev_rev_ident takeWhile_dropWhile_id)

lemma dropWhile_all_prefix:
  "list_all P w \<Longrightarrow> dropWhile P (w @ xs) = dropWhile P xs"
  by (induction w) auto

lemma strip_decompose:
  "\<exists>w1 w2. list_all isspace w1 \<and> list_all isspace w2 \<and> s = w1 @ strip s @ w2"
proof -
  let ?d = "dropWhile isspace s"
  have a: "s = takeWhile isspace s @ ?d" by simp
  have b: "?d = strip s @ rev (takeWhile isspace (rev ?d))"
    unfolding strip_def by (rule rev_dropWhile_takeWhile)
  have "s = takeWhile isspace s @ strip s @ rev (takeWhile isspace (rev ?d))"
    using a b by metis
  moreover have "list_all isspace (takeWhile isspace s)"
    by (simp add: list_all_iff) (meson set_takeWhileD)
  moreover have "list_all isspace (rev (takeWhile isspace (rev ?d)))"
    by (simp add: list_all_iff) (meson set_takeWhileD)
  ultimately show ?thesis by blast
qed

lemma strip_white_around:
  assumes "list_all isspace w1" "list_all isspace w2"
  shows "strip (w1 @ s @ w2) = strip s"
proof -
  have l: "dropWhile isspace (w1 @ s @ w2) = dropWhile isspace (s @ w2)"
    using assms(1) by (rule dropWhile_all_prefix)
  have r: "dropWhile isspace (rev w2 @ xs) = dropWhile isspace xs" for xs
    using assms(2) by (intro dropWhile_all_prefix) (simp add: list_all_iff)
  show ?thesis
  proof (cases "list_all isspace s")
    case True
    then have A: "dropWhile isspace (s @ w2) = []" and B: "dropWhile isspace s = []"
      using assms(2) by (simp_all add: dropWhile_eq_Nil_conv list_all_iff)
    show ?thesis unfolding strip_def l A B by simp
  next
    case False
    then have "dropWhile isspace (s @ w2) = dropWhile isspace s @ w2"
      by (auto simp: list_all_iff dropWhile_append1)
    then show ?thesis using l r by (simp add: strip_def)
  qed
qed

lemma strip_ends:
  assumes "strip s \<noteq> []"
  shows "\<not> isspace (hd (strip s)) \<and> \<not> isspace (last (strip s))"
proof -
  let ?d = "dropWhile isspace s"
  let ?e = "dropWhile isspace (rev ?d)"
  have e: "?e \<noteq> []" using assms by (simp add: strip_def)
  then have "\<not> isspace (hd ?e)" by (rule hd_dropWhile)
  then have la: "\<not> isspace (last (strip s))" using e by (simp add: strip_def last_rev)
  have d: "?d \<noteq> []"
  proof
    assume "?d = []"
    then have "?e = []" by (simp del: dropWhile_eq_Nil_conv)
    with e show False by (simp del: dropWhile_eq_Nil_conv)
  qed
  then have nd: "\<not> isspace (hd ?d)" by (rule hd_dropWhile)
  have "?d = strip s @ rev (takeWhile isspace (rev ?d))"
    unfolding strip_def by (rule rev_dropWhile_takeWhile)
  then have "hd ?d = hd (strip s)" using assms by (metis hd_append2)
  then show ?thesis using nd la by simp
qed

lemma sublist_strip: "sublist (strip s) s"
  using strip_decompose [of s] by (metis sublist_appendI)

lemma isspace_foreign: "isspace c \<Longrightarrow> c \<notin> set fence \<and> c \<notin> set fence_sql"
  by (auto simp: isspace_def fence_def fence_sql_def py_def)

lemma white_foreign:
  "list_all isspace w \<Longrightarrow> set w \<inter> set fence = {} \<and> set w \<inter> set fence_sql = {}"
  using isspace_foreign by (auto simp: list_all_iff)

lemma fence_nonempty: "fence \<noteq> []" "fence_sql \<noteq> []"
  by (simp_all add: fence_def fence_sql_def py_def)

lemma unfence_white_around:
  assumes "list_all isspace w1" "list_all isspace w2"
  shows "unfence (w1 @ s @ w2) = w1 @ unfence s @ w2"
proof -
  have "replace fence_sql [] (w1 @ s @ w2) = w1 @ replace fence_sql [] s @ w2"
    using white_foreign [OF assms(1)] white_foreign [OF assms(2)] fence_nonempty
    by (metis append.assoc replace_foreign_prefix replace_foreign_suffix)
  moreover have "replace fence [] (w1 @ t @ w2) = w1 @ replace fence [] t @ w2" for t
    using white_foreign [OF assms(1)] white_foreign [OF assms(2)] fence_nonempty
    by (metis append.assoc replace_foreign_prefix replace_foreign_suffix)
  ultimately show ?thesis by (simp add: unfence_def)
qed

lemma cleaned_eq_strip_unfence: "cleaned q = strip (unfence q)"
proof -
  obtain w1 w2 where w: "list_all isspace w1" "list_all isspace w2" "q = w1 @ strip q @ w2"
    using strip_decompose by blast
  have "strip (unfence q) = strip (unfence (w1 @ strip q @ w2))" using w(3) by simp
  also have "\<dots> = strip (w1 @ unfence (strip q) @ w2)"
    using unfence_white_around [OF w(1,2)] by simp
  also have "\<dots> = strip (unfence (strip q))" using strip_white_around [OF w(1,2)] by simp
  finally show ?thesis by (simp add: cleaned_def unfence_def)
qed

lemma newline_foreign: "10 \<notin> set fence" "10 \<notin> set fence_sql"
  by (simp_all add: fence_def fence_sql_def py_def)

lemma replace_fence_sql_consts:
  "replace fence_sql [] fence_sql = []" "replace fence_sql [] fence = fence"
  "replace fence [] fence = []"
  by (simp_all add: fence_def fence_sql_def py_def)

lemma unfence_fenced_sql: "unfence (fenced fence_sql q) = [10] @ unfence q @ [10]"
proof -
  have "replace fence_sql [] (fenced fence_sql q) = 10 # replace fence_sql [] q @ 10 # fence"
    using replace_split_at_foreign [OF newline_foreign(2) fence_nonempty(2), of "[]"]
    by (simp add: fenced_def replace_fence_sql_consts del: replace.simps)
  then show ?thesis
    using replace_split_at_foreign [OF newline_foreign(1) fence_nonempty(1), of "[]"]
    by (simp add: unfence_def replace_fence_sql_consts replace_Cons_foreign newline_foreign fence_nonempty del: replace.simps)
qed

lemma unfence_fenced_plain: "unfence (fenced fence q) = [10] @ unfence q @ [10]"
proof -
  have "replace fence_sql [] (fenced fence q) = fence @ 10 # replace fence_sql [] q @ 10 # fence"
    using replace_split_at_foreign [OF newline_foreign(2) fence_nonempty(2), of "[]"]
    by (simp add: fenced_def replace_fence_sql_consts del: replace.simps)
  then show ?thesis
    using replace_split_at_foreign [OF newline_foreign(1) fence_nonempty(1), of "[]"]
    by (simp add: unfence_def replace_fence_sql_consts del: replace.simps)
qed

lemma cleaned_fenced:
  "cleaned (fenced fence_sql q) = cleaned q" "cleaned (fenced fence q) = cleaned q"
  using strip_white_around [of "[10]" "[10]" "unfence q"]
  by (simp_all add: cleaned_eq_strip_unfence unfence_fenced_sql unfence_fenced_plain isspace_def)

lemma validate_via_cleaned:
  "validate_sql_query uc q =
     (if \<exists>k \<in> set valid_keywords. prefix k (upper uc (cleaned q))
      then Inr (cleaned q)
      else Inl (ValueError (py ''Invalid SQL query generated: '' @ cleaned q)))"
  by (simp add: validate_sql_query_def cleaned_def Let_def list_ex_iff startswith_def)

lemma subseq_replace_delete: "subseq (replace old [] s) s"
proof (induction s rule: length_induct)
  case (1 s)
  show ?case
  proof (cases s)
    case Nil then show ?thesis by simp
  next
    case (Cons c cs)
    show ?thesis
    proof (cases "old = []")
      case True
      have "subseq (replace old [] cs) cs" using 1 Cons by simp
      then show ?thesis using True Cons by simp
    next
      case False
      show ?thesis
      proof (cases "prefix old (c # cs)")
        case True
        have "length (drop (length old) (c # cs)) < length s" using Cons False by (cases old) auto
        then have "subseq (replace old [] (drop (length old) (c # cs))) (drop (length old) (c # cs))"
          using 1 by blast
        moreover have "subseq (drop (length old) (c # cs)) (c # cs)"
          by (rule suffix_imp_subseq) (rule suffix_drop)
        ultimately have "subseq (replace old [] (drop (length old) (c # cs))) (c # cs)"
          by (rule subseq_order.trans)
        then show ?thesis using True False Cons by simp
      next
        case nopre: False
        have "subseq (replace old [] cs) cs" using 1 Cons by simp
        then show ?thesis using nopre False Cons by simp
      qed
    qed
  qed
qed

lemma subseq_cleaned: "subseq (cleaned q) q"
proof -
  have "subseq (cleaned q) (unfence q)"
    unfolding cleaned_eq_strip_unfence by (rule sublist_imp_subseq) (rule sublist_strip)
  moreover have "subseq (unfence q) q"
    unfolding unfence_def using subseq_replace_delete subseq_order.trans by blast
  ultimately show ?thesis by (rule subseq_order.trans)
qed

lemma fence_length: "length fence = 3"
  by (simp add: fence_def py_def)

lemma replace_fence_step:
  "replace fence [] (c # cs) =
     (if prefix fence (c # cs) then replace fence [] (drop 3 (c # cs)) else c # replace fence [] cs)"
  by (subst replace.simps) (simp only: fence_nonempty fence_length if_False append_Nil)

lemma replace_fence_starts_tick:
  assumes p: "prefix [96] (replace fence [] s)"
  shows "prefix [96] s"
proof (cases s)
  case Nil then show ?thesis using p by (simp add: fence_nonempty)
next
  case (Cons c cs)
  show ?thesis
  proof (cases "c = 96")
    case True then show ?thesis using Cons by simp
  next
    case False
    then have "\<not> prefix fence (c # cs)" by (simp add: fence_def py_def)
    then have "replace fence [] s = c # replace fence [] cs"
      using Cons by (simp add: replace_fence_step del: replace.simps)
    then show ?thesis using p False by simp
  qed
qed

lemma replace_fence_starts_two_ticks:
  assumes p: "prefix [96, 96] (replace fence [] s)"
  shows "prefix [96, 96] s"
proof (cases s)
  case Nil then show ?thesis using p by (simp add: fence_nonempty)
next
  case (Cons c cs)
  show ?thesis
  proof (cases "prefix fence s")
    case True then show ?thesis by (auto simp: fence_def py_def prefix_def)
  next
    case False
    then have r: "replace fence [] s = c # replace fence [] cs"
      using Cons by (simp add: replace_fence_step del: replace.simps)
    then have "c = 96" "prefix [96] (replace fence [] cs)" using p by simp_all
    then show ?thesis using replace_fence_starts_tick Cons by simp
  qed
qed

lemma no_fence_after_replace: "\<not> sublist fence (replace fence [] s)"
proof (induction s rule: length_induct)
  case (1 s)
  show ?case
  proof (cases s)
    case Nil then show ?thesis by (simp add: fence_def py_def)
  next
    case (Cons c cs)
    show ?thesis
    proof (cases "prefix fence (c # cs)")
      case True
      have "length (drop 3 (c # cs)) < length s" using Cons by simp
      then have "\<not> sublist fence (replace fence [] (drop 3 (c # cs)))" using 1 by blast
      then show ?thesis using True Cons by (simp add: replace_fence_step del: replace.simps drop_Suc_Cons)
    next
      case False
      have r: "replace fence [] s = c # replace fence [] cs"
        using False Cons by (simp add: replace_fence_step del: replace.simps)
      have ih: "\<not> sublist fence (replace fence [] cs)" using 1 Cons by simp
      have "\<not> prefix fence (c # replace fence [] cs)"
      proof
        assume "prefix fence (c # replace fence [] cs)"
        then have "c = 96" "prefix [96, 96] (replace fence [] cs)"
          by (simp_all add: fence_def py_def)
        then have "prefix fence (c # cs)"
          using replace_fence_starts_two_ticks [of cs] by (simp add: fence_def py_def)
        with False show False ..
      qed
      then show ?thesis using r ih by (simp add: sublist_Cons_right)
    qed
  qed
qed

lemma no_fence_in_cleaned: "\<not> sublist fence (cleaned q)"
proof
  assume "sublist fence (cleaned q)"
  then have "sublist fence (unfence q)"
    unfolding cleaned_eq_strip_unfence using sublist_strip sublist_order.order.trans by blast
  then show False unfolding unfence_def using no_fence_after_replace by blast
qed

lemma ascii_upper_eq_capital:
  "65 \<le> K \<Longrightarrow> K \<le> 90 \<Longrightarrow> K = ascii_upper c \<longleftrightarrow> c = K \<or> c = K + 32"
  by (auto simp: ascii_upper_def)

lemma prefix_upper_iff_begins_ci:
  "\<forall>K \<in> set k. 65 \<le> K \<and> K \<le> 90 \<Longrightarrow> prefix k (map ascii_upper s) \<longleftrightarrow> begins_ci s k"
proof (induction k arbitrary: s)
  case Nil then show ?case by (simp add: begins_ci_def)
next
  case (Cons K ks)
  show ?case
  proof (cases s)
    case Nil then show ?thesis by (simp add: begins_ci_def)
  next
    case (Cons c cs)
    have "prefix ks (map ascii_upper cs) \<longleftrightarrow> begins_ci cs ks" using Cons.IH Cons.prems by simp
    moreover have "K = ascii_upper c \<longleftrightarrow> c = K \<or> c = K + 32"
      using Cons.prems by (intro ascii_upper_eq_capital) simp_all
    ultimately show ?thesis using Cons by (simp add: begins_ci_def)
  qed
qed

lemma upper_ascii: "is_ascii s \<Longrightarrow> upper uc s = map ascii_upper s"
  by (induction s) (simp_all add: upper_def is_ascii_def)

lemma begins_ci_prefix_upper:
  "\<forall>K \<in> set k. 65 \<le> K \<and> K \<le> 90 \<Longrightarrow> begins_ci s k \<Longrightarrow> prefix k (upper uc s)"
proof (induction k arbitrary: s)
  case Nil then show ?case by simp
next
  case (Cons K ks)
  show ?case
  proof (cases s)
    case Nil then show ?thesis using Cons.prems by (simp add: begins_ci_def)
  next
    case c: (Cons c cs)
    have k: "c = K \<or> c = K + 32" and rest: "begins_ci cs ks"
      using Cons.prems(2) c by (simp_all add: begins_ci_def)
    have "prefix ks (upper uc cs)" using Cons.IH Cons.prems(1) rest by simp
    moreover have "upper uc (c # cs) = K # upper uc cs"
      using k Cons.prems(1) by (auto simp: upper_def ascii_upper_def)
    ultimately show ?thesis using c by simp
  qed
qed

lemma keywords_capital: "\<forall>k \<in> set valid_keywords. \<forall>K \<in> set k. 65 \<le> K \<and> K \<le> 90"
  by (simp add: valid_keywords_def py_def)


lemma replace_no_occurrence:
  "\<not> sublist old s \<Longrightarrow> old \<noteq> [] \<Longrightarrow> replace old new s = s"
  by (induction s) (auto simp: sublist_Cons_right)

lemma sublist_fence_fence_sql: "sublist fence fence_sql"
proof -
  have "fence_sql = [] @ fence @ py ''sql''" by (simp add: fence_def fence_sql_def py_def)
  then show ?thesis by (metis sublist_appendI)
qed

lemma unfence_no_fence: "\<not> sublist fence s \<Longrightarrow> unfence s = s"
proof -
  assume n: "\<not> sublist fence s"
  then have "\<not> sublist fence_sql s"
    using sublist_fence_fence_sql sublist_order.order.trans by blast
  then show ?thesis using n by (simp add: unfence_def replace_no_occurrence fence_nonempty)
qed


lemma cleaned_no_tick: "96 \<notin> set q \<Longrightarrow> cleaned q = strip q"
proof -
  assume "96 \<notin> set q"
  then have "\<not> sublist fence q" by (auto simp: fence_def py_def sublist_def)
  then show ?thesis by (simp add: cleaned_eq_strip_unfence unfence_no_fence)
qed

text \<open>
  Claim C1. \<open>validate_sql_query\<close> returns the cleaned text exactly when the cleaned text,
  in capitals, starts with one of the eight keywords, and otherwise fails with a
  \<open>ValueError\<close> whose message ends with the cleaned text. A cleaned text that begins
  letter by letter, in either case, with a keyword is accepted whatever follows, and on ASCII
  text the test is exactly that comparison. The cleaned text is what is left of the input in
  order, has no fence marker and no white space at either end, and is the stripped input when
  the input has no backtick.
\<close>

theorem validate_sql_query_keyword_gate:
  "((\<exists>k \<in> set valid_keywords. prefix k (upper uc (cleaned q))) \<longrightarrow>
      validate_sql_query uc q = Inr (cleaned q)) \<and>
   (\<not> (\<exists>k \<in> set valid_keywords. prefix k (upper uc (cleaned q))) \<longrightarrow>
      validate_sql_query uc q = Inl (ValueError (py ''Invalid SQL query generated: '' @ cleaned q))) \<and>
   ((\<exists>k \<in> set valid_keywords. begins_ci (cleaned q) k) \<longrightarrow>
      validate_sql_query uc q = Inr (cleaned q)) \<and>
   (is_ascii (cleaned q) \<longrightarrow>
      ((\<exists>k \<in> set valid_keywords. prefix k (upper uc (cleaned q))) \<longleftrightarrow>
       (\<exists>k \<in> set valid_keywords. begins_ci (cleaned q) k))) \<and>
   subseq (cleaned q) q \<and>
   \<not> sublist fence (cleaned q) \<and>
   (cleaned q \<noteq> [] \<longrightarrow> \<not> isspace (hd (cleaned q)) \<and> \<not> isspace (last (cleaned q))) \<and>
   (96 \<notin> set q \<longrightarrow> cleaned q = strip q)"
proof -
  have "is_ascii (cleaned q) \<Longrightarrow>
      ((\<exists>k \<in> set valid_keywords. prefix k (upper uc (cleaned q))) \<longleftrightarrow>
       (\<exists>k \<in> set valid_keywords. begins_ci (cleaned q) k))"
    using keywords_capital prefix_upper_iff_begins_ci by (simp add: upper_ascii)
  moreover have "\<exists>k \<in> set valid_keywords. begins_ci (cleaned q) k \<Longrightarrow>
      \<exists>k \<in> set valid_keywords. prefix k (upper uc (cleaned q))"
    using keywords_capital begins_ci_prefix_upper by blast
  moreover have "cleaned q \<noteq> [] \<Longrightarrow> \<not> isspace (hd (cleaned q)) \<and> \<not> isspace (last (cleaned q))"
    unfolding cleaned_def by (rule strip_ends)
  ultimately show ?thesis
    using subseq_cleaned [of q] no_fence_in_cleaned [of q] cleaned_no_tick [of q]
    by (simp add: validate_via_cleaned)
qed

lemma cleaned_fenced_lowercase_select: "cleaned fenced_lowercase_select = py ''select 1''"
  by (simp add: cleaned_def fenced_lowercase_select_def fenced_def fence_def fence_sql_def py_def
      strip_def isspace_def)

theorem validate_sql_query_keyword_gate_witness:
  "(\<exists>k \<in> set valid_keywords. prefix k (upper identity_table (cleaned fenced_lowercase_select))) \<and>
   is_ascii (cleaned fenced_lowercase_select) \<and>
   cleaned fenced_lowercase_select \<noteq> [] \<and>
   validate_sql_query identity_table fenced_lowercase_select = Inr (py ''select 1'') \<and>
   (\<exists>k \<in> set valid_keywords. begins_ci (py ''select 1'') k)"
proof -
  have h: "\<exists>k \<in> set valid_keywords. prefix k (upper identity_table (cleaned fenced_lowercase_select))"
    by (simp add: cleaned_fenced_lowercase_select valid_keywords_def upper_def identity_table_def
        ascii_upper_def py_def)
  have a: "is_ascii (cleaned fenced_lowercase_select)"
    by (simp add: cleaned_fenced_lowercase_select is_ascii_def py_def)
  have n: "cleaned fenced_lowercase_select \<noteq> []"
    by (simp add: cleaned_fenced_lowercase_select py_def)
  show ?thesis
    using validate_sql_query_keyword_gate [of identity_table fenced_lowercase_select] h a n
    by (simp add: cleaned_fenced_lowercase_select)
qed





section \<open>The orchestrator\<close>

lemma contains_iff_sublist: "contains sub s \<longleftrightarrow> sublist sub s"
  by (induction s) (auto simp: sublist_Cons_right)

lemma praise_gate:
  "(\<exists>word \<in> set praising_words. sublist word (lower (str_lower env) user_query)) \<Longrightarrow>
     get_response env user_query conn history s = (Inr canned_reply, s)"
  by (simp add: get_response_def list_ex_iff contains_iff_sublist)

lemma no_praise_gate:
  "\<not> (\<exists>word \<in> set praising_words. sublist word (lower (str_lower env) user_query)) \<Longrightarrow>
     get_response env user_query conn history s =
       (if not_set (GROQ_API_KEY env) then (Inr no_api_key_reply, s)
        else except_Exception (py ''Error in chain invocation: '')
               (chain_invoke env conn (sql_chain_invoke env conn) user_query s))"
  by (simp add: get_response_def get_sql_chain_def list_ex_iff contains_iff_sublist)

lemma thanks_has_praise:
  "\<exists>word \<in> set praising_words. sublist word (lower lc (py ''thanks!''))"
  by (simp add: praising_words_def lower_def py_def ascii_lower_def
      contains_iff_sublist [symmetric])

text \<open>
  Claim C5. When the lower-cased message contains one of the praising words,
  \<open>get_response\<close> returns the fixed reply and leaves the world and the list of calls as they
  were: neither the model nor the database is asked. The message \<open>thanks!\<close> is such a
  message.
\<close>

theorem praise_skips_pipeline:
  "((\<exists>word \<in> set praising_words. sublist word (lower (str_lower env) user_query)) \<longrightarrow>
      get_response env user_query conn history s = (Inr canned_reply, s)) \<and>
   get_response env (py ''thanks!'') conn history s = (Inr canned_reply, s)"
  using praise_gate [of env user_query conn history s]
    praise_gate [OF thanks_has_praise, of env conn history s] by simp

theorem praise_skips_pipeline_witness:
  "(\<exists>word \<in> set praising_words. sublist word (lower (str_lower (sample_env refusing_llm)) (py ''Great, thanks!''))) \<and>
   get_response (sample_env refusing_llm) (py ''Great, thanks!'') sample_db [] start = (Inr canned_reply, start)"
proof -
  have h: "\<exists>word \<in> set praising_words.
      sublist word (lower (str_lower (sample_env refusing_llm)) (py ''Great, thanks!''))"
    by (simp add: praising_words_def lower_def py_def ascii_lower_def
        contains_iff_sublist [symmetric])
  show ?thesis
    using praise_skips_pipeline [of "sample_env refusing_llm" "py ''Great, thanks!''" sample_db "[]" start] h
    by simp
qed

lemma praising_words_lowercase:
  "word \<in> set praising_words \<Longrightarrow> map ascii_lower word = word"
  by (auto simp: praising_words_def py_def ascii_lower_def)

lemma praising_words_ascii: "word \<in> set praising_words \<Longrightarrow> is_ascii word"
  by (auto simp: praising_words_def py_def is_ascii_def)

lemma lower_from_append:
  "\<exists>front. lower_from lc before (xs @ ys) = front @ lower_from lc (before @ xs) ys"
proof (induction xs arbitrary: before)
  case Nil then show ?case by simp
next
  case (Cons x xs)
  obtain front where "lower_from lc (before @ [x]) (xs @ ys) = front @ lower_from lc ((before @ [x]) @ xs) ys"
    using Cons.IH by blast
  then have "lower_from lc before ((x # xs) @ ys) =
      ((if x < 128 then [ascii_lower x] else lc before x (xs @ ys)) @ front) @
      lower_from lc (before @ x # xs) ys"
    by simp
  then show ?case by blast
qed

lemma lower_from_ascii_append:
  "is_ascii w \<Longrightarrow>
     lower_from lc before (w @ ys) = map ascii_lower w @ lower_from lc (before @ w) ys"
  by (induction w arbitrary: before) (simp_all add: is_ascii_def)

lemma embedded_praise:
  assumes "word \<in> set praising_words"
  shows "\<exists>w \<in> set praising_words. sublist w (lower lc (pre @ word @ post))"
proof -
  obtain front where "lower lc (pre @ word @ post) = front @ lower_from lc ([] @ pre) (word @ post)"
    unfolding lower_def using lower_from_append by blast
  then have "lower lc (pre @ word @ post) = front @ word @ lower_from lc (([] @ pre) @ word) post"
    using assms by (simp add: lower_from_ascii_append praising_words_ascii praising_words_lowercase)
  then have "sublist word (lower lc (pre @ word @ post))" by (metis sublist_appendI)
  then show ?thesis using assms by blast
qed

text \<open>
  Claim C6. The test is a substring test: a question with a praising word anywhere
  inside it, even inside another word as \<open>ok\<close> is inside \<open>books\<close>, gets the fixed reply
  and nothing is called. The test comes before the API key check: without a key the books
  question still gets the fixed reply, while a question without such a word gets the
  API key message.
\<close>

theorem embedded_word_gets_canned_reply:
  "(word \<in> set praising_words \<longrightarrow>
      get_response env (pre @ word @ post) conn history s = (Inr canned_reply, s)) \<and>
   get_response env books_question conn history s = (Inr canned_reply, s) \<and>
   get_response (env\<lparr>GROQ_API_KEY := None\<rparr>) books_question conn history s = (Inr canned_reply, s) \<and>
   get_response (env\<lparr>GROQ_API_KEY := None\<rparr>) users_question conn history s = (Inr no_api_key_reply, s) \<and>
   canned_reply \<noteq> no_api_key_reply"
proof -
  have b: "\<exists>w \<in> set praising_words. sublist w (lower lc books_question)" for lc
    by (simp add: books_question_def praising_words_def lower_def py_def
        ascii_lower_def contains_iff_sublist [symmetric])
  have u: "\<not> (\<exists>w \<in> set praising_words. sublist w (lower lc users_question))" for lc
    by (simp add: users_question_def praising_words_def lower_def py_def
        ascii_lower_def contains_iff_sublist [symmetric])
  have 1: "word \<in> set praising_words \<longrightarrow>
      get_response env (pre @ word @ post) conn history s = (Inr canned_reply, s)"
    using praise_gate [OF embedded_praise] by blast
  have 2: "get_response env books_question conn history s = (Inr canned_reply, s)"
    using b by (rule praise_gate)
  have 3: "get_response (env\<lparr>GROQ_API_KEY := None\<rparr>) books_question conn history s = (Inr canned_reply, s)"
    using b by (rule praise_gate)
  have 4: "get_response (env\<lparr>GROQ_API_KEY := None\<rparr>) users_question conn history s = (Inr no_api_key_reply, s)"
    using no_praise_gate [OF u, of "env\<lparr>GROQ_API_KEY := None\<rparr>" conn history s]
    by (simp add: not_set_def)
  have 5: "canned_reply \<noteq> no_api_key_reply"
    by (simp add: canned_reply_def no_api_key_reply_def py_def)
  show ?thesis using 1 2 3 4 5 by blast
qed

theorem embedded_word_gets_canned_reply_witness:
  "py ''ok'' \<in> set praising_words \<and>
   get_response (sample_env refusing_llm) (py ''how many bo'' @ py ''ok'' @ py ''s are there'') sample_db [] start =
     (Inr canned_reply, start)"
proof -
  have h: "py ''ok'' \<in> set praising_words" by (simp add: praising_words_def)
  show ?thesis
    using embedded_word_gets_canned_reply [where word = "py ''ok''" and pre = "py ''how many bo''"
        and post = "py ''s are there''" and env = "sample_env refusing_llm" and conn = sample_db
        and history = "[]" and s = start] h
    by simp
qed

text \<open>
  Claim C8. A question that arrives while the session holds no database is answered with
  the warning to connect first: the question and the warning are appended to the history
  and shown, and the world and the list of calls stay as they were.
\<close>

theorem no_connection_warning:
  "db sess = None \<and> user_query \<noteq> [] \<longrightarrow>
     on_chat_input env (Some user_query) sess s =
       (None,
        sess\<lparr>chat_history := chat_history sess @ [HumanMessage user_query, AIMessage connect_first],
              screen := screen sess @ [Markdown Human user_query, Warning connect_first]\<rparr>,
        s)"
  by (simp add: on_chat_input_def Let_def)

theorem no_connection_warning_witness:
  "db fresh_session = None \<and> users_question \<noteq> [] \<and>
   on_chat_input (sample_env refusing_llm) (Some users_question) fresh_session start =
     (None,
      fresh_session\<lparr>chat_history := chat_history fresh_session @ [HumanMessage users_question, AIMessage connect_first],
            screen := screen fresh_session @ [Markdown Human users_question, Warning connect_first]\<rparr>,
      start)"
proof -
  have h: "db fresh_session = None \<and> users_question \<noteq> []"
    by (simp add: fresh_session_def users_question_def py_def)
  show ?thesis
    using no_connection_warning [of fresh_session users_question "sample_env refusing_llm" start] h
    by simp
qed


section \<open>Executor, chain and connect handler\<close>

lemma execute_invalid:
  "validate_sql_query (str_upper env) query = Inl e \<Longrightarrow>
     execute_sql_and_get_response env conn query s =
       (if is_Exception e then (Inr (py ''Error executing SQL query: '' @ exn_str e), s) else (Inl e, s))"
  by (simp add: execute_sql_and_get_response_def except_Exception_def)

lemma execute_valid:
  "validate_sql_query (str_upper env) query = Inr c \<Longrightarrow>
     execute_sql_and_get_response env conn query s =
       except_Exception (py ''Error executing SQL query: '') (db_run conn c s)"
  by (simp add: execute_sql_and_get_response_def)

lemma validate_error_form:
  "validate_sql_query uc query = Inl e \<Longrightarrow>
     e = ValueError (py ''Invalid SQL query generated: '' @ cleaned query)"
  by (auto simp: validate_via_cleaned split: if_splits)

text \<open>
  Claim C2, as stated, fails: \<open>except Exception\<close> does not catch an exception that derives
  from \<open>BaseException\<close> only. With a connection whose \<open>run\<close> is interrupted the executor
  lets the exception through.
\<close>

theorem execute_propagates_interrupt:
  "execute_sql_and_get_response (sample_env refusing_llm) interrupted_db (py ''SELECT 1'') start =
     (Inl (NonException (py ''KeyboardInterrupt'')), \<lparr>world = (), calls = [DbRun (py ''SELECT 1'')]\<rparr>)"
  by (simp add: execute_sql_and_get_response_def except_Exception_def db_run_def
      sample_env_def interrupted_db_def start_def
      validate_sql_query_def Let_def valid_keywords_def upper_def identity_table_def
      ascii_upper_def startswith_def strip_def isspace_def fence_def fence_sql_def py_def)

lemma execute_total:
  assumes "\<forall>q w e w'. run conn q w = (Inl e, w') \<longrightarrow> is_Exception e"
  shows "\<exists>t s'. execute_sql_and_get_response env conn query s = (Inr t, s')"
proof (cases "validate_sql_query (str_upper env) query")
  case (Inl e)
  then have "is_Exception e" using validate_error_form by fastforce
  then show ?thesis using Inl by (simp add: execute_invalid)
next
  case (Inr c)
  obtain r w where rw: "run conn c (world s) = (r, w)" by (cases "run conn c (world s)")
  show ?thesis
  proof (cases r)
    case (Inl e)
    then have "is_Exception e" using assms rw by blast
    then show ?thesis using Inr rw Inl
      by (simp add: execute_valid db_run_def except_Exception_def)
  next
    case r: (Inr t)
    then show ?thesis using Inr rw
      by (simp add: execute_valid db_run_def except_Exception_def)
  qed
qed

text \<open>
  Claim C2, amended. For every input text and every connection whose \<open>run\<close> returns a text
  or raises an exception that derives from \<open>Exception\<close>, \<open>execute_sql_and_get_response\<close>
  returns a text and raises nothing.
\<close>

theorem execute_returns_text:
  assumes "\<forall>q w e w'. run conn q w = (Inl e, w') \<longrightarrow> is_Exception e"
  shows "\<exists>t s'. execute_sql_and_get_response env conn query s = (Inr t, s')"
  using assms by (rule execute_total)

theorem execute_returns_text_witness:
  "run broken_db (py ''SELECT 1'') () = (Inl (OtherException (py ''connection lost'')), ()) \<and>
   is_Exception (OtherException (py ''connection lost'')) \<and>
   execute_sql_and_get_response (sample_env refusing_llm) broken_db (py ''SELECT 1'') start =
     (Inr (py ''Error executing SQL query: connection lost''),
      \<lparr>world = (), calls = [DbRun (py ''SELECT 1'')]\<rparr>)"
proof -
  have h: "\<forall>q w e w'. run broken_db q w = (Inl e, w') \<longrightarrow> is_Exception e"
    by (auto simp: broken_db_def)
  have v: "validate_sql_query (str_upper (sample_env refusing_llm)) (py ''SELECT 1'') = Inr (py ''SELECT 1'')"
    by (simp add: sample_env_def
      validate_sql_query_def Let_def valid_keywords_def upper_def identity_table_def
      ascii_upper_def startswith_def strip_def isspace_def fence_def fence_sql_def py_def)
  have val: "execute_sql_and_get_response (sample_env refusing_llm) broken_db (py ''SELECT 1'') start =
     (Inr (py ''Error executing SQL query: '' @ py ''connection lost''),
      \<lparr>world = (), calls = [DbRun (py ''SELECT 1'')]\<rparr>)"
    by (simp add: execute_valid [OF v] db_run_def except_Exception_def broken_db_def start_def)
  have str: "py ''Error executing SQL query: '' @ py ''connection lost'' =
      py ''Error executing SQL query: connection lost''"
    by (simp add: py_def)
  have b: "run broken_db (py ''SELECT 1'') () = (Inl (OtherException (py ''connection lost'')), ())"
    by (simp add: broken_db_def)
  show ?thesis
    using execute_returns_text [OF h, of "sample_env refusing_llm" "py ''SELECT 1''" start] b val str
    by simp
qed

text \<open>
  Claim C3. In a call of the executor, when the validator rejects the text the state is left
  as it was, so \<open>run\<close> is not called; when the validator accepts, exactly one call is
  added, \<open>run\<close> on the validator's output, which is the cleaned text and starts with a
  keyword.
\<close>

theorem run_only_after_validation:
  "execute_sql_and_get_response env conn query s = (r, s') \<longrightarrow>
     (case validate_sql_query (str_upper env) query of
        Inl e \<Rightarrow> s' = s
      | Inr c \<Rightarrow>
          world s' = snd (run conn c (world s)) \<and> calls s' = calls s @ [DbRun c] \<and>
          c = cleaned query \<and> (\<exists>k \<in> set valid_keywords. prefix k (upper (str_upper env) c)))"
proof (cases "validate_sql_query (str_upper env) query")
  case (Inl e)
  then show ?thesis by (auto simp: execute_invalid split: if_splits)
next
  case (Inr c)
  then have "c = cleaned query \<and> (\<exists>k \<in> set valid_keywords. prefix k (upper (str_upper env) c))"
    by (auto simp: validate_via_cleaned split: if_splits)
  then show ?thesis using Inr
    by (auto simp: execute_valid db_run_def except_Exception_def split: prod.splits sum.splits if_splits)
qed

lemma validate_fenced:
  "validate_sql_query uc (fenced fence_sql x) = validate_sql_query uc x"
  "validate_sql_query uc (fenced fence x) = validate_sql_query uc x"
  by (simp_all add: validate_via_cleaned cleaned_fenced)

lemma validate_select_1:
  "validate_sql_query identity_table (fenced fence_sql (py ''SELECT 1'')) = Inr (py ''SELECT 1'')"
proof -
  have "validate_sql_query identity_table (py ''SELECT 1'') = Inr (py ''SELECT 1'')"
    by (simp add: validate_sql_query_def Let_def valid_keywords_def upper_def identity_table_def
        ascii_upper_def startswith_def strip_def isspace_def fence_def fence_sql_def py_def)
  then show ?thesis by (simp only: validate_fenced)
qed

theorem run_only_after_validation_witness:
  "execute_sql_and_get_response (sample_env refusing_llm) sample_db (fenced fence_sql (py ''SELECT 1'')) start =
     (Inr (py ''[(5,)]''), \<lparr>world = (), calls = [DbRun (py ''SELECT 1'')]\<rparr>) \<and>
   calls \<lparr>world = (), calls = [DbRun (py ''SELECT 1'')]\<rparr> = calls start @ [DbRun (py ''SELECT 1'')] \<and>
   py ''SELECT 1'' = cleaned (fenced fence_sql (py ''SELECT 1''))"
proof -
  have v: "validate_sql_query (str_upper (sample_env refusing_llm)) (fenced fence_sql (py ''SELECT 1'')) =
      Inr (py ''SELECT 1'')"
    using validate_select_1 by (simp add: sample_env_def)
  have e: "execute_sql_and_get_response (sample_env refusing_llm) sample_db (fenced fence_sql (py ''SELECT 1'')) start =
     (Inr (py ''[(5,)]''), \<lparr>world = (), calls = [DbRun (py ''SELECT 1'')]\<rparr>)"
    by (simp add: execute_valid [OF v] db_run_def except_Exception_def sample_db_def start_def)
  show ?thesis
    using run_only_after_validation [of "sample_env refusing_llm" sample_db
        "fenced fence_sql (py ''SELECT 1'')" start "Inr (py ''[(5,)]'')"
        "\<lparr>world = (), calls = [DbRun (py ''SELECT 1'')]\<rparr>"] e v
    by simp
qed

lemma invalid_marker_in_error:
  "sublist (py ''Invalid SQL query generated'')
     (py ''Error executing SQL query: '' @ py ''Invalid SQL query generated: '' @ rest)"
proof -
  have "py ''Invalid SQL query generated: '' = py ''Invalid SQL query generated'' @ py '': ''"
    by (simp add: py_def)
  then have "py ''Error executing SQL query: '' @ py ''Invalid SQL query generated: '' @ rest =
      py ''Error executing SQL query: '' @ py ''Invalid SQL query generated'' @ (py '': '' @ rest)"
    by simp
  then show ?thesis by (metis sublist_appendI)
qed

text \<open>
  Claim C4. When the generated text fails validation, the executor returns the text
  \<open>Error executing SQL query: \<close> followed by the validator's message, which contains
  \<open>Invalid SQL query generated\<close>, and raises nothing. In \<open>get_response\<close> the second
  prompt then carries that text as its response, the model is asked, and its answer is
  returned; the database's \<open>run\<close> is not among the calls.
\<close>

theorem invalid_query_reaches_synthesis:
  assumes "validate_sql_query (str_upper env) generated = Inl e"
    and "\<not> (\<exists>word \<in> set praising_words. sublist word (lower (str_lower env) question))"
    and "\<not> not_set (GROQ_API_KEY env)"
    and "get_table_info conn (world s) = (Inr schema1, w1)"
    and "llm env (SqlPrompt schema1 question) w1 = (Inr generated, w2)"
    and "get_table_info conn w2 = (Inr schema2, w3)"
    and "llm env (AnswerPrompt schema2 question generated
           (py ''Error executing SQL query: '' @ exn_str e)) w3 = (Inr answer, w4)"
  shows "execute_sql_and_get_response env conn generated s0 =
           (Inr (py ''Error executing SQL query: '' @ exn_str e), s0) \<and>
         sublist (py ''Invalid SQL query generated'') (py ''Error executing SQL query: '' @ exn_str e) \<and>
         get_response env question conn history s =
           (Inr answer,
            \<lparr>world = w4,
             calls = calls s @
               [DbGetTableInfo, LlmInvoke (SqlPrompt schema1 question), DbGetTableInfo,
                LlmInvoke (AnswerPrompt schema2 question generated
                  (py ''Error executing SQL query: '' @ exn_str e))]\<rparr>)"
proof -
  have form: "e = ValueError (py ''Invalid SQL query generated: '' @ cleaned generated)"
    using assms(1) by (rule validate_error_form)
  then have exc: "is_Exception e" by simp
  have ex: "execute_sql_and_get_response env conn generated t =
      (Inr (py ''Error executing SQL query: '' @ exn_str e), t)" for t
    using assms(1) exc by (simp add: execute_invalid)
  have marker: "sublist (py ''Invalid SQL query generated'') (py ''Error executing SQL query: '' @ exn_str e)"
    using form invalid_marker_in_error by simp
  have gen: "sql_chain_invoke env conn question s =
      (Inr generated, \<lparr>world = w2, calls = calls s @ [DbGetTableInfo, LlmInvoke (SqlPrompt schema1 question)]\<rparr>)"
    using assms(4,5) by (simp add: sql_chain_invoke_def db_get_table_info_def llm_invoke_def)
  have "chain_invoke env conn (sql_chain_invoke env conn) question s =
      (Inr answer,
            \<lparr>world = w4,
             calls = calls s @
               [DbGetTableInfo, LlmInvoke (SqlPrompt schema1 question), DbGetTableInfo,
                LlmInvoke (AnswerPrompt schema2 question generated
                  (py ''Error executing SQL query: '' @ exn_str e))]\<rparr>)"
    using assms(6,7) by (simp add: chain_invoke_def gen ex db_get_table_info_def llm_invoke_def)
  then have "get_response env question conn history s =
      (Inr answer,
            \<lparr>world = w4,
             calls = calls s @
               [DbGetTableInfo, LlmInvoke (SqlPrompt schema1 question), DbGetTableInfo,
                LlmInvoke (AnswerPrompt schema2 question generated
                  (py ''Error executing SQL query: '' @ exn_str e))]\<rparr>)"
    using assms(2,3) by (simp add: no_praise_gate except_Exception_def)
  then show ?thesis using ex marker by simp
qed

lemma validate_refusal:
  "validate_sql_query identity_table refusal =
     Inl (ValueError (py ''Invalid SQL query generated: '' @ py ''I cannot answer that''))"
proof -
  have "validate_sql_query identity_table (py ''I cannot answer that'') =
      Inl (ValueError (py ''Invalid SQL query generated: '' @ py ''I cannot answer that''))"
    by (simp add: validate_sql_query_def Let_def valid_keywords_def upper_def identity_table_def
        ascii_upper_def startswith_def strip_def isspace_def fence_def fence_sql_def py_def)
  then show ?thesis by (simp only: refusal_def validate_fenced)
qed

lemma users_question_no_praise:
  "\<not> (\<exists>w \<in> set praising_words. sublist w (lower lc users_question))"
  by (simp add: users_question_def praising_words_def lower_def py_def
      ascii_lower_def contains_iff_sublist [symmetric])

theorem invalid_query_reaches_synthesis_witness:
  "validate_sql_query (str_upper (sample_env refusing_llm)) refusal =
     Inl (ValueError (py ''Invalid SQL query generated: '' @ py ''I cannot answer that'')) \<and>
   \<not> not_set (GROQ_API_KEY (sample_env refusing_llm)) \<and>
   execute_sql_and_get_response (sample_env refusing_llm) sample_db refusal start =
     (Inr (py ''Error executing SQL query: '' @ py ''Invalid SQL query generated: '' @ py ''I cannot answer that''), start) \<and>
   get_response (sample_env refusing_llm) users_question sample_db [] start =
     (Inr (py ''Sorry, I could not run a query.''),
      \<lparr>world = (),
       calls =
         [DbGetTableInfo, LlmInvoke (SqlPrompt (py ''users(id, name)'') users_question), DbGetTableInfo,
          LlmInvoke (AnswerPrompt (py ''users(id, name)'') users_question refusal
            (py ''Error executing SQL query: '' @ py ''Invalid SQL query generated: '' @ py ''I cannot answer that''))]\<rparr>)"
proof -
  let ?e = "ValueError (py ''Invalid SQL query generated: '' @ py ''I cannot answer that'')"
  have 1: "validate_sql_query (str_upper (sample_env refusing_llm)) refusal = Inl ?e"
    using validate_refusal by (simp add: sample_env_def)
  have 2: "\<not> (\<exists>word \<in> set praising_words.
      sublist word (lower (str_lower (sample_env refusing_llm)) users_question))"
    by (rule users_question_no_praise)
  have 3: "\<not> not_set (GROQ_API_KEY (sample_env refusing_llm))"
    by (simp add: sample_env_def not_set_def py_def)
  have 4: "get_table_info sample_db (world start) = (Inr (py ''users(id, name)''), ())"
    by (simp add: sample_db_def)
  have 5: "llm (sample_env refusing_llm) (SqlPrompt (py ''users(id, name)'') users_question) () =
      (Inr refusal, ())"
    by (simp add: sample_env_def refusing_llm_def)
  have 6: "get_table_info sample_db () = (Inr (py ''users(id, name)''), ())"
    by (simp add: sample_db_def)
  have 7: "llm (sample_env refusing_llm)
      (AnswerPrompt (py ''users(id, name)'') users_question refusal
        (py ''Error executing SQL query: '' @ exn_str ?e)) () =
      (Inr (py ''Sorry, I could not run a query.''), ())"
    by (simp add: sample_env_def refusing_llm_def)
  show ?thesis
    using invalid_query_reaches_synthesis [OF 1 2 3 4 5 6 7, of start "[]"] 1 3
    by (simp add: start_def)
qed

text \<open>
  Claim C7, as stated, fails for the same reason as C2: an interruption raised by the model
  during generation goes through \<open>except Exception\<close> and leaves \<open>get_response\<close>.
\<close>

theorem get_response_propagates_interrupt:
  "get_response (sample_env interrupted_llm) users_question sample_db [] start =
     (Inl (NonException (py ''KeyboardInterrupt'')),
      \<lparr>world = (),
       calls = [DbGetTableInfo, LlmInvoke (SqlPrompt (py ''users(id, name)'') users_question)]\<rparr>)"
proof -
  have k: "\<not> not_set (GROQ_API_KEY (sample_env interrupted_llm))"
    by (simp add: sample_env_def not_set_def py_def)
  show ?thesis
    using k
    by (simp add: no_praise_gate [OF users_question_no_praise] chain_invoke_def sql_chain_invoke_def
        db_get_table_info_def llm_invoke_def except_Exception_def sample_env_def sample_db_def
        interrupted_llm_def start_def)
qed

lemma chain_invoke_raises_only_Exception:
  assumes "\<forall>q w e w'. run conn q w = (Inl e, w') \<longrightarrow> is_Exception e"
    and "\<forall>w e w'. get_table_info conn w = (Inl e, w') \<longrightarrow> is_Exception e"
    and "\<forall>p w e w'. llm env p w = (Inl e, w') \<longrightarrow> is_Exception e"
    and "chain_invoke env conn (sql_chain_invoke env conn) question s = (Inl e, s')"
  shows "is_Exception e"
proof -
  have g: "db_get_table_info conn t = (Inl x, t') \<Longrightarrow> is_Exception x" for t x t'
    using assms(2) by (auto simp: db_get_table_info_def split: prod.splits)
  have l: "llm_invoke env p t = (Inl x, t') \<Longrightarrow> is_Exception x" for p t x t'
    using assms(3) by (auto simp: llm_invoke_def split: prod.splits)
  have x: "execute_sql_and_get_response env conn q t = (Inl x, t') \<Longrightarrow> is_Exception x" for q t x t'
    using execute_total [OF assms(1), of env q t] by auto
  have sq: "sql_chain_invoke env conn question t = (Inl x, t') \<Longrightarrow> is_Exception x" for t x t'
    using g l by (auto simp: sql_chain_invoke_def split: prod.splits sum.splits)
  show ?thesis
    using assms(4) g l x sq
    by (auto simp: chain_invoke_def split: prod.splits sum.splits)
qed

text \<open>
  Claim C7, amended. For a question without a praising word and with an API key set, an
  exception \<open>e\<close> that derives from \<open>Exception\<close> and leaves the chain is turned into the
  reply \<open>Error in chain invocation: \<close> followed by \<open>str(e)\<close>: whether it was raised while
  fetching the schema or asking the model during generation, while fetching the schema for
  the second prompt, or while asking the model during synthesis. When the collaborators raise
  only such exceptions, \<open>get_response\<close> always returns a text.
\<close>

theorem chain_exception_becomes_message:
  assumes np: "\<not> (\<exists>word \<in> set praising_words. sublist word (lower (str_lower env) question))"
    and key: "\<not> not_set (GROQ_API_KEY env)"
    and exc: "is_Exception e"
  shows
    "(chain_invoke env conn (sql_chain_invoke env conn) question s = (Inl e, s') \<longrightarrow>
        get_response env question conn history s =
          (Inr (py ''Error in chain invocation: '' @ exn_str e), s')) \<and>
     (get_table_info conn (world s) = (Inl e, w1) \<longrightarrow>
        get_response env question conn history s =
          (Inr (py ''Error in chain invocation: '' @ exn_str e),
           \<lparr>world = w1, calls = calls s @ [DbGetTableInfo]\<rparr>)) \<and>
     (get_table_info conn (world s) = (Inr schema1, w1) \<and>
      llm env (SqlPrompt schema1 question) w1 = (Inl e, w2) \<longrightarrow>
        get_response env question conn history s =
          (Inr (py ''Error in chain invocation: '' @ exn_str e),
           \<lparr>world = w2, calls = calls s @ [DbGetTableInfo, LlmInvoke (SqlPrompt schema1 question)]\<rparr>)) \<and>
     (sql_chain_invoke env conn question s = (Inr generated, s1) \<and>
      get_table_info conn (world s1) = (Inl e, w3) \<longrightarrow>
        fst (get_response env question conn history s) =
          Inr (py ''Error in chain invocation: '' @ exn_str e)) \<and>
     (sql_chain_invoke env conn question s = (Inr generated, s1) \<and>
      db_get_table_info conn s1 = (Inr schema2, s2) \<and>
      execute_sql_and_get_response env conn generated s2 = (Inr response, s3) \<and>
      llm env (AnswerPrompt schema2 question generated response) (world s3) = (Inl e, w4) \<longrightarrow>
        get_response env question conn history s =
          (Inr (py ''Error in chain invocation: '' @ exn_str e),
           \<lparr>world = w4,
            calls = calls s3 @ [LlmInvoke (AnswerPrompt schema2 question generated response)]\<rparr>)) \<and>
     ((\<forall>q w x w'. run conn q w = (Inl x, w') \<longrightarrow> is_Exception x) \<and>
      (\<forall>w x w'. get_table_info conn w = (Inl x, w') \<longrightarrow> is_Exception x) \<and>
      (\<forall>p w x w'. llm env p w = (Inl x, w') \<longrightarrow> is_Exception x) \<longrightarrow>
        (\<exists>t s''. get_response env question conn history s = (Inr t, s'')))"
proof -
  have gr: "get_response env question conn history s =
      except_Exception (py ''Error in chain invocation: '')
        (chain_invoke env conn (sql_chain_invoke env conn) question s)"
    using np key by (simp add: no_praise_gate)
  have 1: "chain_invoke env conn (sql_chain_invoke env conn) question s = (Inl e, s') \<longrightarrow>
        get_response env question conn history s =
          (Inr (py ''Error in chain invocation: '' @ exn_str e), s')"
    using exc by (simp add: gr except_Exception_def)
  have 2: "get_table_info conn (world s) = (Inl e, w1) \<longrightarrow>
        get_response env question conn history s =
          (Inr (py ''Error in chain invocation: '' @ exn_str e),
           \<lparr>world = w1, calls = calls s @ [DbGetTableInfo]\<rparr>)"
    using exc
    by (simp add: gr except_Exception_def chain_invoke_def sql_chain_invoke_def db_get_table_info_def)
  have 3: "get_table_info conn (world s) = (Inr schema1, w1) \<and>
      llm env (SqlPrompt schema1 question) w1 = (Inl e, w2) \<longrightarrow>
        get_response env question conn history s =
          (Inr (py ''Error in chain invocation: '' @ exn_str e),
           \<lparr>world = w2, calls = calls s @ [DbGetTableInfo, LlmInvoke (SqlPrompt schema1 question)]\<rparr>)"
    using exc
    by (simp add: gr except_Exception_def chain_invoke_def sql_chain_invoke_def db_get_table_info_def
        llm_invoke_def)
  have 4: "sql_chain_invoke env conn question s = (Inr generated, s1) \<and>
      get_table_info conn (world s1) = (Inl e, w3) \<longrightarrow>
        fst (get_response env question conn history s) =
          Inr (py ''Error in chain invocation: '' @ exn_str e)"
    using exc
    by (auto simp: gr except_Exception_def chain_invoke_def db_get_table_info_def
        split: prod.splits sum.splits)
  have 5: "sql_chain_invoke env conn question s = (Inr generated, s1) \<and>
      db_get_table_info conn s1 = (Inr schema2, s2) \<and>
      execute_sql_and_get_response env conn generated s2 = (Inr response, s3) \<and>
      llm env (AnswerPrompt schema2 question generated response) (world s3) = (Inl e, w4) \<longrightarrow>
        get_response env question conn history s =
          (Inr (py ''Error in chain invocation: '' @ exn_str e),
           \<lparr>world = w4,
            calls = calls s3 @ [LlmInvoke (AnswerPrompt schema2 question generated response)]\<rparr>)"
    using exc
    by (simp add: gr except_Exception_def chain_invoke_def llm_invoke_def)
  have 6: "(\<forall>q w x w'. run conn q w = (Inl x, w') \<longrightarrow> is_Exception x) \<and>
      (\<forall>w x w'. get_table_info conn w = (Inl x, w') \<longrightarrow> is_Exception x) \<and>
      (\<forall>p w x w'. llm env p w = (Inl x, w') \<longrightarrow> is_Exception x) \<longrightarrow>
        (\<exists>t s''. get_response env question conn history s = (Inr t, s''))"
  proof
    assume a: "(\<forall>q w x w'. run conn q w = (Inl x, w') \<longrightarrow> is_Exception x) \<and>
      (\<forall>w x w'. get_table_info conn w = (Inl x, w') \<longrightarrow> is_Exception x) \<and>
      (\<forall>p w x w'. llm env p w = (Inl x, w') \<longrightarrow> is_Exception x)"
    obtain r t where rt: "chain_invoke env conn (sql_chain_invoke env conn) question s = (r, t)"
      by (cases "chain_invoke env conn (sql_chain_invoke env conn) question s")
    show "\<exists>t s''. get_response env question conn history s = (Inr t, s'')"
    proof (cases r)
      case (Inl x)
      then have "is_Exception x" using chain_invoke_raises_only_Exception a rt by blast
      then show ?thesis using Inl rt by (simp add: gr except_Exception_def)
    next
      case (Inr v)
      then show ?thesis using rt by (simp add: gr except_Exception_def)
    qed
  qed
  show ?thesis using 1 2 3 4 5 6 by blast
qed

theorem chain_exception_becomes_message_witness:
  "\<not> (\<exists>word \<in> set praising_words. sublist word (lower (str_lower (sample_env failing_llm)) users_question)) \<and>
   \<not> not_set (GROQ_API_KEY (sample_env failing_llm)) \<and>
   is_Exception (OtherException (py ''rate limit'')) \<and>
   get_table_info sample_db (world start) = (Inr (py ''users(id, name)''), ()) \<and>
   llm (sample_env failing_llm) (SqlPrompt (py ''users(id, name)'') users_question) () =
     (Inl (OtherException (py ''rate limit'')), ()) \<and>
   get_response (sample_env failing_llm) users_question sample_db [] start =
     (Inr (py ''Error in chain invocation: '' @ py ''rate limit''),
      \<lparr>world = (),
       calls = [DbGetTableInfo, LlmInvoke (SqlPrompt (py ''users(id, name)'') users_question)]\<rparr>)"
proof -
  have np: "\<not> (\<exists>word \<in> set praising_words.
      sublist word (lower (str_lower (sample_env failing_llm)) users_question))"
    by (rule users_question_no_praise)
  have key: "\<not> not_set (GROQ_API_KEY (sample_env failing_llm))"
    by (simp add: sample_env_def not_set_def py_def)
  have exc: "is_Exception (OtherException (py ''rate limit''))" by simp
  have g: "get_table_info sample_db (world start) = (Inr (py ''users(id, name)''), ())"
    by (simp add: sample_db_def)
  have l: "llm (sample_env failing_llm) (SqlPrompt (py ''users(id, name)'') users_question) () =
     (Inl (OtherException (py ''rate limit'')), ())"
    by (simp add: sample_env_def failing_llm_def)
  show ?thesis
    using chain_exception_becomes_message [OF np key exc, of sample_db start _ "[]" "()"
        "py ''users(id, name)''" "()"] np key g l
    by (simp add: start_def)
qed

text \<open>
  Claim C9. The handler gives the three sample failures (unknown database, access denied,
  server unreachable on port 3306) three different messages. It tests for the error number
  \<open>1049\<close> with a substring test on the whole text, so the failure of a server that is
  unreachable on port 1049, whose text holds \<open>2003\<close> and \<open>Can't connect\<close>, is reported
  with the message for an unknown database.
\<close>

theorem cannot_connect_on_port_1049_misreported:
  "contains marker_cannot_connect err_cannot_connect_port_1049 \<and>
   contains (py ''2003'') err_cannot_connect_port_1049 \<and>
   connect_error_message err_cannot_connect_port_1049 = msg_unknown_database \<and>
   connect_error_message err_unknown_database = msg_unknown_database \<and>
   connect_error_message err_access_denied = msg_access_denied \<and>
   connect_error_message err_cannot_connect = msg_cannot_connect \<and>
   on_connect port_1049_from_uri sample_credentials fresh_session () =
     (None, fresh_session\<lparr>screen := screen fresh_session @ [Error msg_unknown_database]\<rparr>, ()) \<and>
   on_connect port_3306_from_uri sample_credentials fresh_session () =
     (None, fresh_session\<lparr>screen := screen fresh_session @ [Error msg_cannot_connect]\<rparr>, ())"
proof -
  have 1: "contains marker_cannot_connect err_cannot_connect_port_1049 \<and>
      contains (py ''2003'') err_cannot_connect_port_1049"
    by (simp add: marker_cannot_connect_def err_cannot_connect_port_1049_def py_def)
  have 2: "connect_error_message err_cannot_connect_port_1049 = msg_unknown_database"
    by (simp add: connect_error_message_def err_cannot_connect_port_1049_def py_def)
  have 3: "connect_error_message err_unknown_database = msg_unknown_database"
    by (simp add: connect_error_message_def err_unknown_database_def py_def)
  have 4: "connect_error_message err_access_denied = msg_access_denied"
    by (simp add: connect_error_message_def err_access_denied_def py_def)
  have 5: "connect_error_message err_cannot_connect = msg_cannot_connect"
    by (simp add: connect_error_message_def err_cannot_connect_def py_def)
  have 6: "on_connect port_1049_from_uri sample_credentials fresh_session () =
     (None, fresh_session\<lparr>screen := screen fresh_session @ [Error msg_unknown_database]\<rparr>, ())"
    by (simp add: on_connect_def init_database_def port_1049_from_uri_def 2)
  have 7: "on_connect port_3306_from_uri sample_credentials fresh_session () =
     (None, fresh_session\<lparr>screen := screen fresh_session @ [Error msg_cannot_connect]\<rparr>, ())"
    by (simp add: on_connect_def init_database_def port_3306_from_uri_def 5)
  show ?thesis using 1 2 3 4 5 6 7 by blast
qed

end
